theory Spec2Isabelle
  imports Complex_Main "HOL-Library.AList" "HOL-Library.Sublist" "HOL-Library.Word"
begin

unbundle bit_operations_syntax

section \<open>Python strings\<close>

text \<open>
  A Python \<open>str\<close> is a sequence of code points. The model uses \<^typ>\<open>string\<close>, one
  \<^typ>\<open>char\<close> per code point, which covers the code points 0 to 255 (ASCII and Latin-1).
  \<open>str.isspace\<close> and \<open>str.lower\<close> are written out for that whole range.
\<close>

definition py_isspace :: "char \<Rightarrow> bool" where
  "py_isspace c = ((of_char c :: nat) \<in> {9, 10, 11, 12, 13, 28, 29, 30, 31, 32, 133, 160})"

definition py_lower_char :: "char \<Rightarrow> char" where
  "py_lower_char c =
     (let n = (of_char c :: nat)
      in if (65 \<le> n \<and> n \<le> 90) \<or> (192 \<le> n \<and> n \<le> 222 \<and> n \<noteq> 215)
         then char_of (n + 32) else c)"

definition lower :: "string \<Rightarrow> string" where
  "lower s = map py_lower_char s"

definition lstrip :: "string \<Rightarrow> string" where
  "lstrip s = dropWhile py_isspace s"

definition rstrip :: "string \<Rightarrow> string" where
  "rstrip s = rev (dropWhile py_isspace (rev s))"

definition strip :: "string \<Rightarrow> string" where
  "strip s = rstrip (lstrip s)"

definition startswith :: "string \<Rightarrow> string \<Rightarrow> bool" where
  "startswith s p = (take (length p) s = p)"

text \<open>\<open>s.split(sep)\<close> for a one-character separator: always at least one piece.\<close>

fun split_on :: "char \<Rightarrow> string \<Rightarrow> string list" where
  "split_on sep [] = [[]]"
| "split_on sep (c # cs) =
     (if c = sep then [] # split_on sep cs
      else (case split_on sep cs of [] \<Rightarrow> [[c]] | l # ls \<Rightarrow> (c # l) # ls))"

text \<open>\<open>line.split(sep, 1)\<close> on a line that contains \<open>sep\<close>: the text before the first
  separator and everything after it.\<close>

definition split_first :: "char \<Rightarrow> string \<Rightarrow> string \<times> string" where
  "split_first sep line = (takeWhile (\<lambda>c. c \<noteq> sep) line, tl (dropWhile (\<lambda>c. c \<noteq> sep) line))"

abbreviation TAB :: char where "TAB \<equiv> CHR 0x09"
abbreviation NL :: char where "NL \<equiv> CHR 0x0A"

section \<open>Output normalizer (\<open>run_comparison_tests.normalize_value\<close>)\<close>

definition normalize_value :: "string \<Rightarrow> string" where
  "normalize_value v =
     (let value = strip v
      in if lower value \<in> set ['''', ''none'', ''null''] then ''None''
         else if startswith value ''0x'' then lower value
         else value)"

section \<open>Field maps and the output parser\<close>

text \<open>
  A Python \<open>dict\<close> keeps its keys in insertion order and a store to an existing key
  replaces the value in place: an association list updated with \<^const>\<open>AList.update\<close>.
\<close>

type_synonym fieldmap = "(string \<times> string) list"

definition dict_get :: "('k \<times> 'v) list \<Rightarrow> 'k \<Rightarrow> 'v \<Rightarrow> 'v" where
  "dict_get d k dflt = (case map_of d k of None \<Rightarrow> dflt | Some v \<Rightarrow> v)"

definition dict_keys :: "('k \<times> 'v) list \<Rightarrow> 'k list" where
  "dict_keys d = map fst d"

definition parse_line :: "fieldmap \<Rightarrow> string \<Rightarrow> fieldmap" where
  "parse_line result line =
     (if TAB \<in> set line
      then (let (key, value) = split_first TAB line in AList.update key value result)
      else result)"

definition parse_output :: "string \<Rightarrow> fieldmap" where
  "parse_output output = foldl parse_line [] (split_on NL (strip output))"

section \<open>Implementation runner\<close>

text \<open>
  What a command line does when the shell runs it is the environment's choice: the
  child exits after some time with a return code and its two output streams; or it exits
  with output that is not valid text in the locale's encoding; or it never exits; or it
  cannot be started at all.
\<close>

datatype process =
    Exits nat int string string   \<comment> \<open>running time, return code, stdout, stderr\<close>
  | Exits_undecodable nat int string   \<comment> \<open>running time, return code, message of the decoder\<close>
  | Hangs
  | Spawn_error string

type_synonym shell = "string \<Rightarrow> process"

type_synonym completed = "int \<times> string \<times> string"

text \<open>
  The library call \<open>subprocess.run(..., capture_output=True, text=True, timeout=t)\<close>,
  from its documentation: with a timeout the child is killed once the time is over and
  \<open>TimeoutExpired\<close> is raised; with \<open>timeout=None\<close> (the default) the call waits until
  the child exits. With \<open>text=True\<close> the captured streams are decoded after the child has
  exited, and output that cannot be decoded raises \<open>UnicodeDecodeError\<close> whatever the
  return code was. The value \<open>None\<close> of the model is a call that never returns;
  \<open>Inl msg\<close> is an exception whose \<open>str\<close> is \<open>msg\<close>.
\<close>

fun subprocess_run :: "nat option \<Rightarrow> process \<Rightarrow> (string + completed) option" where
  "subprocess_run None (Exits d rc out err) = Some (Inr (rc, out, err))"
| "subprocess_run (Some t) (Exits d rc out err) =
     (if d \<le> t then Some (Inr (rc, out, err)) else Some (Inl ''timed out''))"
| "subprocess_run None (Exits_undecodable d rc msg) = Some (Inl msg)"
| "subprocess_run (Some t) (Exits_undecodable d rc msg) =
     (if d \<le> t then Some (Inl msg) else Some (Inl ''timed out''))"
| "subprocess_run None Hangs = None"
| "subprocess_run (Some t) Hangs = Some (Inl ''timed out'')"
| "subprocess_run timeout (Spawn_error msg) = Some (Inl msg)"

fun elapsed :: "process \<Rightarrow> nat" where
  "elapsed (Exits d rc out err) = d"
| "elapsed (Exits_undecodable d rc msg) = d"
| "elapsed Hangs = 0"
| "elapsed (Spawn_error msg) = 0"

text \<open>\<open>run_command\<close> passes no timeout to \<open>subprocess.run\<close>, and its
  \<open>except Exception\<close> answers every exception of the call, the decoding error of an
  exited child included, with return code 1, an empty standard output and the text of the
  exception as standard error.\<close>

definition run_command :: "shell \<Rightarrow> string \<Rightarrow> completed option" where
  "run_command sh cmd =
     (case subprocess_run None (sh cmd) of
        None \<Rightarrow> None
      | Some (Inl e) \<Rightarrow> Some (1, '''', e)
      | Some (Inr result) \<Rightarrow> Some result)"

text \<open>The dictionary a runner returns. \<open>duration\<close> is the difference of two clock
  readings taken around \<open>run_command\<close>, modelled as the running time of the child.\<close>

record run_result =
  error :: "string option"
  duration :: nat
  fields' :: fieldmap

text \<open>Lines 68 to 72 of \<open>run_go_gameid\<close> and 95 to 99 of \<open>run_python_gameid\<close> repeat the
  body of \<open>parse_output\<close>.\<close>

definition run_go_gameid :: "shell \<Rightarrow> string \<Rightarrow> string \<Rightarrow> run_result option" where
  "run_go_gameid sh console filepath =
     (let cmd = ''./gameid -console '' @ console @ '' -input '' @ filepath
      in case run_command sh cmd of
           None \<Rightarrow> None
         | Some (returncode, stdout, stderr) \<Rightarrow>
             Some (if returncode \<noteq> 0
                   then \<lparr>error = Some (''Command failed: '' @ stderr),
                         duration = elapsed (sh cmd), fields' = []\<rparr>
                   else \<lparr>error = None, duration = elapsed (sh cmd),
                         fields' = parse_output stdout\<rparr>))"

definition run_python_gameid :: "shell \<Rightarrow> string \<Rightarrow> string \<Rightarrow> run_result option" where
  "run_python_gameid sh console filepath =
     (let cmd = ''python3 scripts/GameID.py --console '' @ console @ '' --input '' @ filepath
      in case run_command sh cmd of
           None \<Rightarrow> None
         | Some (returncode, stdout, stderr) \<Rightarrow>
             Some (if returncode \<noteq> 0
                   then \<lparr>error = Some (''Command failed: '' @ stderr),
                         duration = elapsed (sh cmd), fields' = []\<rparr>
                   else \<lparr>error = None, duration = elapsed (sh cmd),
                         fields' = parse_output stdout\<rparr>))"

section \<open>Diff engine (\<open>run_comparison_tests.compare_results\<close>)\<close>

text \<open>Python truth value of \<open>result.get("error")\<close>: \<open>None\<close> and the empty string are
  false.\<close>

fun truthy :: "string option \<Rightarrow> bool" where
  "truthy None = False"
| "truthy (Some s) = (s \<noteq> [])"

record diff =
  field :: string
  go_value :: string
  python_value :: string

record comparison =
  passed :: bool
  differences :: "diff list"
  missing_in_go :: "string list"
  missing_in_python :: "string list"
  go_error :: "string option"
  python_error :: "string option"

definition compare_field :: "fieldmap \<Rightarrow> fieldmap \<Rightarrow> comparison \<Rightarrow> string \<Rightarrow> comparison" where
  "compare_field go_fields python_fields c f =
     (let gv = dict_get go_fields f '''';
          pv = dict_get python_fields f ''''
      in if f \<notin> set (dict_keys go_fields)
         then c\<lparr>missing_in_go := missing_in_go c @ [f], passed := False\<rparr>
         else if f \<notin> set (dict_keys python_fields)
         then c\<lparr>missing_in_python := missing_in_python c @ [f], passed := False\<rparr>
         else if normalize_value gv \<noteq> normalize_value pv
         then c\<lparr>differences := differences c @ [\<lparr>field = f, go_value = gv, python_value = pv\<rparr>],
                passed := False\<rparr>
         else c)"

text \<open>
  \<open>all_fields\<close> is a Python \<open>set\<close>; the order in which the loop visits it is not
  specified. The model visits the keys of the Go side first, then the remaining keys of
  the Python side. The loop itself, \<open>compare_fields\<close>, takes any order.
\<close>

definition all_fields :: "fieldmap \<Rightarrow> fieldmap \<Rightarrow> string list" where
  "all_fields go_fields python_fields = remdups (dict_keys go_fields @ dict_keys python_fields)"

definition compare_fields :: "string list \<Rightarrow> fieldmap \<Rightarrow> fieldmap \<Rightarrow> comparison \<Rightarrow> comparison" where
  "compare_fields ks go_fields python_fields c = foldl (compare_field go_fields python_fields) c ks"

definition compare_results :: "run_result \<Rightarrow> run_result \<Rightarrow> comparison" where
  "compare_results go python =
     (let c = \<lparr>passed = True, differences = [], missing_in_go = [], missing_in_python = [],
               go_error = error go, python_error = error python\<rparr>
      in if truthy (error go) \<and> truthy (error python) then c\<lparr>passed := False\<rparr>
         else if truthy (error go) \<or> truthy (error python) then c\<lparr>passed := False\<rparr>
         else compare_fields (all_fields (fields' go) (fields' python)) (fields' go) (fields' python) c)"

section \<open>Aggregator (\<open>run_comparison_tests.generate_report\<close>)\<close>

text \<open>One test case, as \<open>run_tests\<close> records it. The \<open>timestamp\<close> entry is a wall-clock
  reading that nothing reads back; it is left out.\<close>

record test_result =
  console :: string
  filepath :: string
  go_result :: run_result
  python_result :: run_result
  comparison :: comparison

text \<open>Entries of the buckets: \<open>(console, file, go_value, python_value)\<close> for a field
  difference, \<open>(console, file)\<close> for a missing field.\<close>

type_synonym case_diff = "string \<times> string \<times> string \<times> string"
type_synonym case_ref = "string \<times> string"

record buckets =
  field_differences :: "(string \<times> case_diff list) list"
  missing_fields_go :: "(string \<times> case_ref list) list"
  missing_fields_python :: "(string \<times> case_ref list) list"
  error_cases_go :: "test_result list"
  error_cases_python :: "test_result list"
  error_cases_both :: "test_result list"

text \<open>\<open>if k not in d: d[k] = []\<close> followed by \<open>d[k].append(x)\<close>.\<close>

definition dict_append :: "('k \<times> 'v list) list \<Rightarrow> 'k \<Rightarrow> 'v \<Rightarrow> ('k \<times> 'v list) list" where
  "dict_append d k x = AList.update k (dict_get d k [] @ [x]) d"

definition empty_buckets :: buckets where
  "empty_buckets =
     \<lparr>field_differences = [], missing_fields_go = [], missing_fields_python = [],
      error_cases_go = [], error_cases_python = [], error_cases_both = []\<rparr>"

text \<open>The body of the loop over the results (lines 271 to 313).\<close>

definition categorize :: "buckets \<Rightarrow> test_result \<Rightarrow> buckets" where
  "categorize b r =
     (if \<not> passed (comparison r)
      then
        (let comp = comparison r;
             b1 = b\<lparr>field_differences :=
                      foldl (\<lambda>d df. dict_append d (field df)
                                (console r, filepath r, go_value df, python_value df))
                        (field_differences b) (differences comp)\<rparr>;
             b2 = b1\<lparr>missing_fields_go :=
                      foldl (\<lambda>d f. dict_append d f (console r, filepath r))
                        (missing_fields_go b1) (missing_in_go comp)\<rparr>;
             b3 = b2\<lparr>missing_fields_python :=
                      foldl (\<lambda>d f. dict_append d f (console r, filepath r))
                        (missing_fields_python b2) (missing_in_python comp)\<rparr>;
             go_err = error (go_result r);
             python_err = error (python_result r)
         in if truthy go_err \<and> truthy python_err
            then b3\<lparr>error_cases_both := error_cases_both b3 @ [r]\<rparr>
            else if truthy go_err
            then b3\<lparr>error_cases_go := error_cases_go b3 @ [r]\<rparr>
            else if truthy python_err
            then b3\<lparr>error_cases_python := error_cases_python b3 @ [r]\<rparr>
            else b3)
      else b)"

record report =
  total_tests :: nat
  passed_tests :: nat
  failed_tests :: nat
  success_rate :: real
  categories :: buckets
  all_results :: "test_result list"

datatype py_error = ZeroDivisionError

text \<open>Python's \<open>a / b\<close> on integers; the floating-point rounding of the quotient is not
  modelled.\<close>

definition truediv :: "nat \<Rightarrow> nat \<Rightarrow> py_error + real" where
  "truediv a b = (if b = 0 then Inl ZeroDivisionError else Inr (real a / real b))"

text \<open>The dictionary built in lines 262 to 328 and dumped to
  \<open>comparison_results/detailed_report.json\<close>.\<close>

definition detailed_report :: "test_result list \<Rightarrow> report" where
  "detailed_report results =
     (let total = length results;
          npassed = length (filter (\<lambda>r. passed (comparison r)) results);
          nfailed = total - npassed
      in \<lparr>total_tests = total, passed_tests = npassed, failed_tests = nfailed,
          success_rate = (if total > 0 then real npassed / real total * 100 else 0),
          categories = foldl categorize empty_buckets results,
          all_results = results\<rparr>)"

text \<open>
  After the dump the function formats the summary; line 344 evaluates
  \<open>passed_tests/total_tests*100\<close> with no guard, and line 446 does so again. Of the
  summary text only these two divisions are modelled: the calls of \<open>max\<close> are guarded by
  non-empty dictionaries and the division of line 414 by \<open>stats["total"] > 0\<close>.
\<close>

definition generate_report :: "test_result list \<Rightarrow> py_error + report" where
  "generate_report results =
     (let rep = detailed_report results
      in case truediv (passed_tests rep) (total_tests rep) of
           Inl e \<Rightarrow> Inl e
         | Inr rate \<Rightarrow>
             (case truediv (passed_tests rep) (total_tests rep) of
                Inl e \<Rightarrow> Inl e
              | Inr rate' \<Rightarrow> Inr rep))"

section \<open>The harness run (\<open>run_comparison_tests.run_tests\<close> and \<open>main\<close>)\<close>

definition run_case :: "shell \<Rightarrow> string \<Rightarrow> string \<Rightarrow> test_result option" where
  "run_case sh cons path =
     (case run_go_gameid sh cons path of
        None \<Rightarrow> None
      | Some go \<Rightarrow>
          (case run_python_gameid sh cons path of
             None \<Rightarrow> None
           | Some python \<Rightarrow>
               Some \<lparr>console = cons, filepath = path, go_result = go, python_result = python,
                     comparison = compare_results go python\<rparr>))"

fun run_files :: "shell \<Rightarrow> (string \<times> string) list \<Rightarrow> test_result list option" where
  "run_files sh [] = Some []"
| "run_files sh ((cons, path) # rest) =
     (case run_case sh cons path of
        None \<Rightarrow> None
      | Some r \<Rightarrow> (case run_files sh rest of None \<Rightarrow> None | Some rs \<Rightarrow> Some (r # rs)))"

text \<open>\<open>test_files\<close> is the dictionary of \<open>find_test_files\<close>: console name to the paths
  found in its directory.\<close>

definition run_tests :: "shell \<Rightarrow> (string \<times> string list) list \<Rightarrow> test_result list option" where
  "run_tests sh test_files =
     (if test_files = [] then Some []
      else run_files sh (concat (map (\<lambda>(cons, files). map (Pair cons) files) test_files)))"

text \<open>
  The exit status of \<open>main\<close>; \<open>None\<close> is a run that never ends. \<open>setup_ok\<close> is the
  value of \<open>setup_environment()\<close>. An exception that leaves \<open>generate_report\<close> ends the
  interpreter with status 1.
\<close>

definition main :: "shell \<Rightarrow> bool \<Rightarrow> (string \<times> string list) list \<Rightarrow> int option" where
  "main sh setup_ok test_files =
     (if \<not> setup_ok then Some 1
      else case run_tests sh test_files of
             None \<Rightarrow> None
           | Some results \<Rightarrow>
               (if results = [] then Some 1
                else case generate_report results of
                       Inl e \<Rightarrow> Some 1
                     | Inr rep \<Rightarrow> (if failed_tests rep > 0 then Some 1 else Some 0)))"

section \<open>The single-file comparer (\<open>compare_outputs.py\<close>)\<close>



text \<open>\<open>compare_outputs\<close> returns whether the list of differences is empty; the keys are
  visited in sorted order, which the returned value does not depend on.\<close>

definition compare_outputs :: "fieldmap option \<Rightarrow> fieldmap option \<Rightarrow> bool" where
  "compare_outputs python_output go_output =
     (case (python_output, go_output) of
        (Some py, Some go) \<Rightarrow>
          (let all_keys = remdups (dict_keys py @ dict_keys go);
               diffs = filter (\<lambda>key. dict_get py key ''<missing>'' \<noteq> dict_get go key ''<missing>'')
                         all_keys
           in diffs = [])
      | _ \<Rightarrow> False)"

text \<open>
  \<open>compare_outputs.main\<close>: in batch mode \<open>cases\<close> holds the two parsed outputs of every
  file found, in single-file mode those of the one input.
\<close>

datatype co_args =
    Batch bool "(fieldmap option \<times> fieldmap option) list"   \<comment> \<open>whether \<open>test_data\<close> exists, the cases\<close>
  | Single "fieldmap option" "fieldmap option"

fun main_co :: "co_args \<Rightarrow> int" where
  "main_co (Batch dir_exists cases) =
     (if \<not> dir_exists then 1
      else (let total = length cases;
                npassed = length (filter (\<lambda>(py, go). compare_outputs py go) cases)
            in if npassed = total then 0 else 1))"
| "main_co (Single py go) = (if compare_outputs py go then 0 else 1)"

section \<open>Fixture synthesizer (\<open>create_test_samples.py\<close>)\<close>

type_synonym byte = "8 word"

definition bytearray :: "nat \<Rightarrow> byte list" where
  "bytearray n = replicate n 0"

text \<open>A bytes literal of ASCII text.\<close>

definition bytes_of :: "string \<Rightarrow> byte list" where
  "bytes_of s = map (\<lambda>c. word_of_nat (of_char c)) s"

definition ljust :: "nat \<Rightarrow> byte \<Rightarrow> byte list \<Rightarrow> byte list" where
  "ljust width fill bs = bs @ replicate (width - length bs) fill"

text \<open>
  \<open>data[lo:hi] = bs\<close>: the slice bounds are clamped to the length, and the bytes between
  them are replaced by \<open>bs\<close> (whatever its length).
\<close>

definition set_slice :: "byte list \<Rightarrow> nat \<Rightarrow> nat \<Rightarrow> byte list \<Rightarrow> byte list" where
  "set_slice data lo hi bs =
     (let lo' = min lo (length data);
          hi' = max lo' (min hi (length data))
      in take lo' data @ bs @ drop hi' data)"

text \<open>
  \<open>data[i] = v\<close> is \<^term>\<open>data[i := v]\<close>. Python raises \<open>IndexError\<close> for an index outside
  the buffer; every index below is a constant inside the buffer allocated on the first
  line of its function.
\<close>

text \<open>\<open>sum(data)\<close>, a Python integer.\<close>

definition sum_bytes :: "byte list \<Rightarrow> int" where
  "sum_bytes data = sum_list (map uint data)"

text \<open>\<open>struct.pack('<H', n)\<close> and \<open>struct.pack('>H', n)\<close> for \<open>0 \<le> n < 65536\<close>.\<close>

definition pack_le16 :: "int \<Rightarrow> byte list" where
  "pack_le16 n = [word_of_int (n mod 256), word_of_int (n div 256)]"

definition pack_be16 :: "int \<Rightarrow> byte list" where
  "pack_be16 n = [word_of_int (n div 256), word_of_int (n mod 256)]"

subsection \<open>Game Boy\<close>

definition nintendo_logo_gb :: "byte list" where
  "nintendo_logo_gb =
     [0xCE, 0xED, 0x66, 0x66, 0xCC, 0x0D, 0x00, 0x0B, 0x03, 0x73, 0x00, 0x83,
      0x00, 0x0C, 0x00, 0x0D, 0x00, 0x08, 0x11, 0x1F, 0x88, 0x89, 0x00, 0x0E,
      0xDC, 0xCC, 0x6E, 0xE6, 0xDD, 0xDD, 0xD9, 0x99, 0xBB, 0xBB, 0x67, 0x63,
      0x6E, 0x0E, 0xEC, 0xCC, 0xDD, 0xDC, 0x99, 0x9F, 0xBB, 0xB9, 0x33, 0x3E]"

text \<open>Lines 73 to 114: the buffer with every header field but the two checksums.\<close>

definition gb_header :: "byte list" where
  "gb_header =
     (let data = bytearray 0x8000;
          data = set_slice data 0x100 0x104 [0x00, 0xC3, 0x50, 0x01];
          data = set_slice data 0x104 (0x104 + length nintendo_logo_gb) nintendo_logo_gb;
          title = ljust 11 0x00 (bytes_of ''TEST GAME'');
          data = set_slice data 0x134 0x13F title;
          data = set_slice data 0x13F 0x143 [0x00, 0x00, 0x00, 0x00];
          data = data[0x143 := 0x00];
          data = set_slice data 0x144 0x146 (bytes_of ''01'');
          data = data[0x146 := 0x00];
          data = data[0x147 := 0x00];
          data = data[0x148 := 0x00];
          data = data[0x149 := 0x00];
          data = data[0x14A := 0x01];
          data = data[0x14B := 0x33];
          data = data[0x14C := 0x00]
      in data)"

text \<open>Lines 117 to 119: the loop over \<open>range(0x134, 0x14D)\<close>.\<close>

definition header_checksum :: "byte list \<Rightarrow> int" where
  "header_checksum data =
     foldl (\<lambda>checksum i. (checksum - uint (data ! i) - 1) AND 0xFF) 0 [0x134 ..< 0x14D]"

text \<open>Lines 123 to 127: the loop over \<open>enumerate(data)\<close> and the final mask.\<close>

definition global_checksum :: "byte list \<Rightarrow> int" where
  "global_checksum data =
     foldl (\<lambda>acc (i, b). if i \<notin> set [0x14E, 0x14F] then acc + uint b else acc) 0
       (zip [0 ..< length data] data)
     AND 0xFFFF"

definition create_gb_sample :: "byte list" where
  "create_gb_sample =
     (let data = gb_header;
          checksum = header_checksum data;
          data = data[0x14D := word_of_int checksum];
          gc = global_checksum data;
          data = set_slice data 0x14E 0x150 (pack_be16 gc)
      in data)"

subsection \<open>SNES\<close>

text \<open>Lines 136 to 164: the buffer with every header field but complement and checksum.\<close>

definition snes_header :: "byte list" where
  "snes_header =
     (let data = bytearray 0x100000;
          header_start = 0x7FC0;
          title = ljust 21 0x20 (bytes_of ''TEST GAME'');
          data = set_slice data header_start (header_start + 21) title;
          data = data[header_start + 21 := 0x20];
          data = data[header_start + 22 := 0x00];
          data = data[header_start + 23 := 0x0A];
          data = data[header_start + 24 := 0x00];
          data = data[header_start + 25 := 0x01];
          data = data[header_start + 26 := 0x00];
          data = data[header_start + 27 := 0x00]
      in data)"

definition create_snes_sample :: "byte list" where
  "create_snes_sample =
     (let data = snes_header;
          header_start = 0x7FC0;
          checksum = sum_bytes data AND 0xFFFF;
          complement = (0xFFFF - checksum) AND 0xFFFF;
          data = set_slice data (header_start + 28) (header_start + 30) (pack_le16 complement);
          data = set_slice data (header_start + 30) (header_start + 32) (pack_le16 checksum)
      in data)"

text \<open>Reading a written image back: a 16-bit field at an offset, in either byte order.\<close>

definition read_le16 :: "byte list \<Rightarrow> nat \<Rightarrow> int" where
  "read_le16 data off = uint (data ! off) + 256 * uint (data ! (off + 1))"

definition read_be16 :: "byte list \<Rightarrow> nat \<Rightarrow> int" where
  "read_be16 data off = 256 * uint (data ! off) + uint (data ! (off + 1))"

text \<open>The rolling complement of the specification, over the bytes of a range.\<close>

definition rolling_complement :: "byte list \<Rightarrow> int" where
  "rolling_complement bs = foldl (\<lambda>acc b. (acc - uint b - 1) mod 256) 0 bs"

text \<open>The bytes of \<open>data\<close> at the offsets \<open>lo\<close> up to, not including, \<open>hi\<close>.\<close>

definition slice :: "byte list \<Rightarrow> nat \<Rightarrow> nat \<Rightarrow> byte list" where
  "slice data lo hi = take (hi - lo) (drop lo data)"

text \<open>The sum of all bytes of an image except those at the offsets in \<open>skip\<close>.\<close>

definition sum_except :: "nat list \<Rightarrow> byte list \<Rightarrow> int" where
  "sum_except skip data =
     sum_list (map (\<lambda>i. uint (data ! i)) (filter (\<lambda>i. i \<notin> set skip) [0 ..< length data]))"

section \<open>Notions of the specification\<close>

text \<open>A field map after normalization: every value replaced by its normal form, read as a
  finite map (the order of the keys plays no role).\<close>

definition normalized :: "fieldmap \<Rightarrow> string \<rightharpoonup> string" where
  "normalized fm = map_of (map (\<lambda>(k, v). (k, normalize_value v)) fm)"

text \<open>Two strings are equal up to letter case when their lower-case forms coincide.\<close>

definition ci_equal :: "string \<Rightarrow> string \<Rightarrow> bool" where
  "ci_equal a b = (lower a = lower b)"

text \<open>\<open>t\<close> is \<open>v\<close> without its surrounding whitespace: what is cut off on both sides is
  whitespace only, and \<open>t\<close> neither starts nor ends with whitespace.\<close>

definition trimmed :: "string \<Rightarrow> string \<Rightarrow> bool" where
  "trimmed v t =
     (\<exists>a b. v = a @ t @ b \<and> list_all py_isspace a \<and> list_all py_isspace b \<and>
            (t = [] \<or> (\<not> py_isspace (hd t) \<and> \<not> py_isspace (last t))))"

text \<open>The normalizer as the specification words it, on a value \<open>t\<close> already trimmed.\<close>

definition normalize_trimmed_spec :: "string \<Rightarrow> string" where
  "normalize_trimmed_spec t =
     (if ci_equal t '''' \<or> ci_equal t ''none'' \<or> ci_equal t ''null'' then ''None''
      else if prefix ''0x'' t then lower t
      else t)"

section \<open>Example environments\<close>


definition failing_shell :: shell where
  "failing_shell cmd = Exits 1 1 [] ''unsupported format''"



text \<open>A machine on which the Go program fails and the Python program reports a title,
  and the test case that \<open>run_case\<close> records there for the Game Boy fixture.\<close>

definition go_failing_shell :: shell where
  "go_failing_shell cmd =
     (if take 8 cmd = ''./gameid'' then Exits 1 1 [] ''unsupported format''
      else Exits 2 0 (''Title'' @ TAB # ''TEST GAME'') '''')"

definition go_fail_case :: test_result where
  "go_fail_case =
     \<lparr>console = ''GB'', filepath = ''testdata/gb/test_game.gb'',
      go_result = \<lparr>error = Some ''Command failed: unsupported format'', duration = 1,
                    fields' = []\<rparr>,
      python_result = \<lparr>error = None, duration = 2, fields' = [(''Title'', ''TEST GAME'')]\<rparr>,
      comparison = \<lparr>passed = False, differences = [], missing_in_go = [],
                     missing_in_python = [],
                     go_error = Some ''Command failed: unsupported format'',
                     python_error = None\<rparr>\<rparr>"


section \<open>The diff engine: proofs\<close>

lemma compare_field_passed:
  "passed (compare_field g p c k) =
     (passed c \<and> k \<in> set (dict_keys g) \<and> k \<in> set (dict_keys p) \<and>
      normalize_value (dict_get g k '''') = normalize_value (dict_get p k ''''))"
  by (simp add: compare_field_def Let_def)

lemma compare_field_differences:
  "differences (compare_field g p c k) =
     differences c @ (if k \<in> set (dict_keys g) \<and> k \<in> set (dict_keys p) \<and>
        normalize_value (dict_get g k '''') \<noteq> normalize_value (dict_get p k '''')
      then [\<lparr>field = k, go_value = dict_get g k '''', python_value = dict_get p k ''''\<rparr>] else [])"
  by (simp add: compare_field_def Let_def)

lemma compare_field_missing_in_go:
  "missing_in_go (compare_field g p c k) =
     missing_in_go c @ (if k \<notin> set (dict_keys g) then [k] else [])"
  by (simp add: compare_field_def Let_def)

lemma compare_field_missing_in_python:
  "missing_in_python (compare_field g p c k) =
     missing_in_python c @ (if k \<in> set (dict_keys g) \<and> k \<notin> set (dict_keys p) then [k] else [])"
  by (simp add: compare_field_def Let_def)

text \<open>The loop over the keys, for any visiting order \<open>ks\<close> and any starting record.\<close>

lemma compare_fields_passed:
  "passed (compare_fields ks g p c) =
     (passed c \<and> (\<forall>k\<in>set ks. k \<in> set (dict_keys g) \<and> k \<in> set (dict_keys p) \<and>
      normalize_value (dict_get g k '''') = normalize_value (dict_get p k '''')))"
  unfolding compare_fields_def
  by (induction ks arbitrary: c) (auto simp: compare_field_passed)

lemma compare_fields_differences:
  "differences (compare_fields ks g p c) =
     differences c @
     map (\<lambda>k. \<lparr>field = k, go_value = dict_get g k '''', python_value = dict_get p k ''''\<rparr>)
       (filter (\<lambda>k. k \<in> set (dict_keys g) \<and> k \<in> set (dict_keys p) \<and>
          normalize_value (dict_get g k '''') \<noteq> normalize_value (dict_get p k '''')) ks)"
  unfolding compare_fields_def
  by (induction ks arbitrary: c) (simp_all add: compare_field_differences)

lemma compare_fields_missing_in_go:
  "missing_in_go (compare_fields ks g p c) =
     missing_in_go c @ filter (\<lambda>k. k \<notin> set (dict_keys g)) ks"
  unfolding compare_fields_def
  by (induction ks arbitrary: c) (simp_all add: compare_field_missing_in_go)

lemma compare_fields_missing_in_python:
  "missing_in_python (compare_fields ks g p c) =
     missing_in_python c @ filter (\<lambda>k. k \<in> set (dict_keys g) \<and> k \<notin> set (dict_keys p)) ks"
  unfolding compare_fields_def
  by (induction ks arbitrary: c) (simp_all add: compare_field_missing_in_python)

lemma compare_results_error:
  "truthy (error go) \<or> truthy (error python) \<Longrightarrow>
   compare_results go python =
     \<lparr>passed = False, differences = [], missing_in_go = [], missing_in_python = [],
      go_error = error go, python_error = error python\<rparr>"
  by (auto simp: compare_results_def Let_def)

lemma compare_results_ok:
  "\<not> truthy (error go) \<Longrightarrow> \<not> truthy (error python) \<Longrightarrow>
   compare_results go python =
     compare_fields (all_fields (fields' go) (fields' python)) (fields' go) (fields' python)
       \<lparr>passed = True, differences = [], missing_in_go = [], missing_in_python = [],
        go_error = error go, python_error = error python\<rparr>"
  by (simp add: compare_results_def Let_def)

lemma set_all_fields: "set (all_fields g p) = set (dict_keys g) \<union> set (dict_keys p)"
  by (simp add: all_fields_def)

lemma passed_iff_lists_empty:
  "passed (compare_results go python) \<longleftrightarrow>
     \<not> truthy (error go) \<and> \<not> truthy (error python) \<and>
     differences (compare_results go python) = [] \<and>
     missing_in_go (compare_results go python) = [] \<and>
     missing_in_python (compare_results go python) = []"
proof (cases "truthy (error go) \<or> truthy (error python)")
  case True
  then show ?thesis by (auto simp: compare_results_error)
next
  case False
  then show ?thesis
    by (auto simp: compare_results_ok compare_fields_passed compare_fields_differences
        compare_fields_missing_in_go compare_fields_missing_in_python filter_empty_conv
        set_all_fields)
qed

lemma in_dict_keys: "k \<in> set (dict_keys d) \<longleftrightarrow> map_of d k \<noteq> None"
  by (simp add: dict_keys_def map_of_eq_None_iff)

lemma normalized_apply: "normalized fm k = map_option normalize_value (map_of fm k)"
  by (simp add: normalized_def map_of_map)

lemma normalized_eq_iff:
  "normalized g = normalized p \<longleftrightarrow>
     (\<forall>k\<in>set (dict_keys g) \<union> set (dict_keys p).
        k \<in> set (dict_keys g) \<and> k \<in> set (dict_keys p) \<and>
        normalize_value (dict_get g k '''') = normalize_value (dict_get p k ''''))"
proof
  assume eq: "normalized g = normalized p"
  show "\<forall>k\<in>set (dict_keys g) \<union> set (dict_keys p).
        k \<in> set (dict_keys g) \<and> k \<in> set (dict_keys p) \<and>
        normalize_value (dict_get g k '''') = normalize_value (dict_get p k '''')"
  proof
    fix k assume "k \<in> set (dict_keys g) \<union> set (dict_keys p)"
    moreover have "map_option normalize_value (map_of g k) = map_option normalize_value (map_of p k)"
      using eq normalized_apply by metis
    ultimately show "k \<in> set (dict_keys g) \<and> k \<in> set (dict_keys p) \<and>
        normalize_value (dict_get g k '''') = normalize_value (dict_get p k '''')"
      by (cases "map_of g k"; cases "map_of p k") (auto simp: in_dict_keys dict_get_def)
  qed
next
  assume all: "\<forall>k\<in>set (dict_keys g) \<union> set (dict_keys p).
        k \<in> set (dict_keys g) \<and> k \<in> set (dict_keys p) \<and>
        normalize_value (dict_get g k '''') = normalize_value (dict_get p k '''')"
  show "normalized g = normalized p"
  proof
    fix k
    show "normalized g k = normalized p k"
    proof (cases "k \<in> set (dict_keys g) \<union> set (dict_keys p)")
      case True
      with all have "k \<in> set (dict_keys g)" "k \<in> set (dict_keys p)"
        "normalize_value (dict_get g k '''') = normalize_value (dict_get p k '''')"
        by blast+
      then show ?thesis
        by (cases "map_of g k"; cases "map_of p k")
           (auto simp: in_dict_keys dict_get_def normalized_apply)
    next
      case False
      then show ?thesis by (simp add: in_dict_keys normalized_apply)
    qed
  qed
qed

lemma passed_iff_normalized_equal:
  assumes "\<not> truthy (error go)" "\<not> truthy (error python)"
  shows "passed (compare_results go python) \<longleftrightarrow>
           normalized (fields' go) = normalized (fields' python)"
  using assms
  by (simp add: compare_results_ok compare_fields_passed set_all_fields normalized_eq_iff)

text \<open>The results the runner builds carry either no error or a non-empty message, so
  for them "has an error" and the truth value tested by \<open>compare_results\<close> agree.\<close>

lemma run_go_gameid_error_truthy:
  "run_go_gameid sh cons path = Some r \<Longrightarrow> truthy (error r) \<longleftrightarrow> error r \<noteq> None"
  by (auto simp: run_go_gameid_def Let_def split: option.splits prod.splits if_splits)

lemma run_python_gameid_error_truthy:
  "run_python_gameid sh cons path = Some r \<Longrightarrow> truthy (error r) \<longleftrightarrow> error r \<noteq> None"
  by (auto simp: run_python_gameid_def Let_def split: option.splits prod.splits if_splits)

text \<open>
  Claim C1. The comparison of two run results is passed exactly when neither run has an
  error and the lists of value differences, of fields missing in Go and of fields missing
  in Python are all empty. For two runs without error this is the case exactly when the
  two field maps are identical after normalization; in particular identical normalized
  field maps give a passed comparison with three empty lists.
\<close>

theorem compare_results_passed_iff:
  "(passed (compare_results go python) \<longleftrightarrow>
      \<not> truthy (error go) \<and> \<not> truthy (error python) \<and>
      differences (compare_results go python) = [] \<and>
      missing_in_go (compare_results go python) = [] \<and>
      missing_in_python (compare_results go python) = [])
   \<and> (\<not> truthy (error go) \<and> \<not> truthy (error python) \<longrightarrow>
        (passed (compare_results go python) \<longleftrightarrow>
           normalized (fields' go) = normalized (fields' python)))
   \<and> (\<not> truthy (error go) \<and> \<not> truthy (error python) \<and>
      normalized (fields' go) = normalized (fields' python) \<longrightarrow>
        passed (compare_results go python) \<and>
        differences (compare_results go python) = [] \<and>
        missing_in_go (compare_results go python) = [] \<and>
        missing_in_python (compare_results go python) = [])"
proof (intro conjI impI)
  show "passed (compare_results go python) \<longleftrightarrow>
      \<not> truthy (error go) \<and> \<not> truthy (error python) \<and>
      differences (compare_results go python) = [] \<and>
      missing_in_go (compare_results go python) = [] \<and>
      missing_in_python (compare_results go python) = []"
    by (rule passed_iff_lists_empty)
next
  assume "\<not> truthy (error go) \<and> \<not> truthy (error python)"
  then show "passed (compare_results go python) \<longleftrightarrow>
      normalized (fields' go) = normalized (fields' python)"
    using passed_iff_normalized_equal by blast
next
  assume h: "\<not> truthy (error go) \<and> \<not> truthy (error python) \<and>
      normalized (fields' go) = normalized (fields' python)"
  then have p: "passed (compare_results go python)"
    using passed_iff_normalized_equal by blast
  from p show "passed (compare_results go python)" .
  from p show "differences (compare_results go python) = []"
    using passed_iff_lists_empty by blast
  from p show "missing_in_go (compare_results go python) = []"
    using passed_iff_lists_empty by blast
  from p show "missing_in_python (compare_results go python) = []"
    using passed_iff_lists_empty by blast
qed

theorem compare_results_passed_iff_witness:
  "passed (compare_results
      \<lparr>error = None, duration = 3, fields' = [(''Title'', ''TEST GAME''), (''Checksum'', ''0xAB12'')]\<rparr>
      \<lparr>error = None, duration = 5, fields' = [(''Checksum'', '' 0xab12''), (''Title'', ''TEST GAME '')]\<rparr>)
   \<and> differences (compare_results
      \<lparr>error = None, duration = 3, fields' = [(''Title'', ''TEST GAME''), (''Checksum'', ''0xAB12'')]\<rparr>
      \<lparr>error = None, duration = 5, fields' = [(''Checksum'', '' 0xab12''), (''Title'', ''TEST GAME '')]\<rparr>) = []"
proof -
  let ?go = "\<lparr>error = None, duration = 3,
               fields' = [(''Title'', ''TEST GAME''), (''Checksum'', ''0xAB12'')]\<rparr>"
  let ?py = "\<lparr>error = None, duration = 5,
               fields' = [(''Checksum'', '' 0xab12''), (''Title'', ''TEST GAME '')]\<rparr>"
  have n1: "normalize_value ''TEST GAME'' = ''TEST GAME''" by code_simp
  have n2: "normalize_value ''TEST GAME '' = ''TEST GAME''" by code_simp
  have n3: "normalize_value ''0xAB12'' = ''0xab12''" by code_simp
  have n4: "normalize_value '' 0xab12'' = ''0xab12''" by code_simp
  have eq: "normalized (fields' ?go) = normalized (fields' ?py)"
    by (rule ext) (simp add: normalized_def n1 n2 n3 n4)
  have ok: "\<not> truthy (error ?go) \<and> \<not> truthy (error ?py)" by simp
  show ?thesis
    using compare_results_passed_iff [of ?go ?py] eq ok by blast
qed

text \<open>
  Claim C2. When at least one of the two run results has an error, the comparison fails
  at once: it is not passed, and the lists of differences, of fields missing in Go and of
  fields missing in Python are empty, whatever the field maps hold.
\<close>

theorem compare_results_error_fails:
  "truthy (error go) \<or> truthy (error python) \<Longrightarrow>
   \<not> passed (compare_results go python) \<and>
   differences (compare_results go python) = [] \<and>
   missing_in_go (compare_results go python) = [] \<and>
   missing_in_python (compare_results go python) = []"
  by (simp add: compare_results_error)

theorem compare_results_error_fails_witness:
  "truthy (error \<lparr>error = Some ''Command failed: unsupported format'', duration = 1, fields' = []\<rparr>)
   \<and> \<not> passed (compare_results
        \<lparr>error = Some ''Command failed: unsupported format'', duration = 1, fields' = []\<rparr>
        \<lparr>error = None, duration = 2, fields' = [(''Title'', ''TEST GAME'')]\<rparr>)
   \<and> missing_in_go (compare_results
        \<lparr>error = Some ''Command failed: unsupported format'', duration = 1, fields' = []\<rparr>
        \<lparr>error = None, duration = 2, fields' = [(''Title'', ''TEST GAME'')]\<rparr>) = []"
proof -
  let ?go = "\<lparr>error = Some ''Command failed: unsupported format'', duration = 1, fields' = []\<rparr>"
  let ?py = "\<lparr>error = None, duration = 2, fields' = [(''Title'', ''TEST GAME'')]\<rparr>"
  have h: "truthy (error ?go) \<or> truthy (error ?py)" by simp
  show ?thesis using compare_results_error_fails [OF h] by simp
qed

section \<open>The normalizer: proofs\<close>

lemma dropWhile_space_decomp:
  "\<exists>a. s = a @ dropWhile py_isspace s \<and> list_all py_isspace a"
proof -
  have "s = takeWhile py_isspace s @ dropWhile py_isspace s" by simp
  moreover have "list_all py_isspace (takeWhile py_isspace s)"
    by (simp add: list_all_iff) (meson set_takeWhileD)
  ultimately show ?thesis by blast
qed

lemma lstrip_decomp: "\<exists>a. s = a @ lstrip s \<and> list_all py_isspace a"
  unfolding lstrip_def by (rule dropWhile_space_decomp)

lemma rstrip_decomp: "\<exists>b. s = rstrip s @ b \<and> list_all py_isspace b"
proof -
  obtain a where a: "rev s = a @ dropWhile py_isspace (rev s)" "list_all py_isspace a"
    using dropWhile_space_decomp by blast
  have "s = rev (rev s)" by simp
  also have "\<dots> = rev (dropWhile py_isspace (rev s)) @ rev a"
    using a(1) by (metis rev_append)
  finally have "s = rstrip s @ rev a" by (simp add: rstrip_def)
  moreover have "list_all py_isspace (rev a)" using a(2) by (simp add: list_all_iff)
  ultimately show ?thesis by blast
qed

lemma rstrip_last: "rstrip s \<noteq> [] \<Longrightarrow> \<not> py_isspace (last (rstrip s))"
  unfolding rstrip_def by (simp add: last_rev hd_dropWhile)

lemma rstrip_hd: "rstrip s \<noteq> [] \<Longrightarrow> hd (rstrip s) = hd s"
proof -
  assume ne: "rstrip s \<noteq> []"
  obtain b where "s = rstrip s @ b" using rstrip_decomp by blast
  then have "hd s = hd (rstrip s @ b)" by simp
  then show ?thesis using ne by simp
qed

lemma rstrip_Nil: "rstrip [] = []"
  by (simp add: rstrip_def)

lemma strip_trimmed: "trimmed v (strip v)"
proof -
  obtain a where a: "v = a @ lstrip v" "list_all py_isspace a"
    using lstrip_decomp by blast
  obtain b where b: "lstrip v = strip v @ b" "list_all py_isspace b"
    unfolding strip_def using rstrip_decomp by blast
  have ends: "strip v = [] \<or> (\<not> py_isspace (hd (strip v)) \<and> \<not> py_isspace (last (strip v)))"
  proof (cases "strip v = []")
    case True
    then show ?thesis by simp
  next
    case False
    then have ne: "rstrip (lstrip v) \<noteq> []" by (simp add: strip_def)
    then have lne: "lstrip v \<noteq> []" using rstrip_Nil by auto
    have "hd (strip v) = hd (lstrip v)" using ne by (simp add: strip_def rstrip_hd)
    moreover have "\<not> py_isspace (hd (lstrip v))"
      using lne unfolding lstrip_def by (rule hd_dropWhile)
    moreover have "\<not> py_isspace (last (strip v))"
      using ne by (simp add: strip_def rstrip_last)
    ultimately show ?thesis by simp
  qed
  have "v = a @ strip v @ b" using a(1) b(1) by simp
  then show ?thesis unfolding trimmed_def using a(2) b(2) ends by blast
qed

lemma dropWhile_all: "list_all P xs \<Longrightarrow> dropWhile P (xs @ ys) = dropWhile P ys"
  by (induction xs) simp_all

lemma dropWhile_hd_stop: "xs \<noteq> [] \<Longrightarrow> \<not> P (hd xs) \<Longrightarrow> dropWhile P (xs @ ys) = xs @ ys"
  by (cases xs) simp_all

lemma trimmed_unique:
  assumes "trimmed v t"
  shows "t = strip v"
proof -
  from assms obtain a b where v: "v = a @ t @ b" and a: "list_all py_isspace a"
    and b: "list_all py_isspace b"
    and t: "t = [] \<or> (\<not> py_isspace (hd t) \<and> \<not> py_isspace (last t))"
    unfolding trimmed_def by blast
  show ?thesis
  proof (cases "t = []")
    case True
    have "list_all py_isspace (a @ b)" using a b by simp
    then have "dropWhile py_isspace ((a @ b) @ []) = dropWhile py_isspace []"
      by (rule dropWhile_all)
    then have "lstrip v = []" using v True by (simp add: lstrip_def)
    then show ?thesis using True by (simp add: strip_def rstrip_Nil)
  next
    case False
    with t have h: "\<not> py_isspace (hd t)" and l: "\<not> py_isspace (last t)" by simp_all
    have "lstrip v = dropWhile py_isspace (t @ b)"
      using v a by (simp add: lstrip_def dropWhile_all)
    also have "\<dots> = t @ b" using False h by (rule dropWhile_hd_stop)
    finally have ls: "lstrip v = t @ b" .
    have rb: "list_all py_isspace (rev b)" using b by (simp add: list_all_iff)
    have rt: "rev t \<noteq> []" using False by simp
    have hrt: "\<not> py_isspace (hd (rev t))" using l False by (simp add: hd_rev)
    have "dropWhile py_isspace (rev (t @ b)) = dropWhile py_isspace (rev t @ [])"
      using rb by (simp add: dropWhile_all)
    also have "\<dots> = rev t @ []" using rt hrt by (rule dropWhile_hd_stop)
    finally have "rstrip (t @ b) = t" by (simp add: rstrip_def)
    then show ?thesis using ls by (simp add: strip_def)
  qed
qed

lemma startswith_prefix: "startswith s p = prefix p s"
  unfolding startswith_def by (metis prefix_def append_eq_conv_conj take_is_prefix)

lemma lower_sentinels: "lower ''none'' = ''none''" "lower ''null'' = ''null''" "lower [] = []"
  by (simp_all add: lower_def py_lower_char_def)

lemma normalize_value_spec: "normalize_value v = normalize_trimmed_spec (strip v)"
  by (simp add: normalize_value_def normalize_trimmed_spec_def ci_equal_def lower_sentinels
      startswith_prefix Let_def)

text \<open>
  Claim C3. \<open>normalize_value\<close> first trims the surrounding whitespace (the trimmed value
  is the one string that differs from the input by whitespace cut off at both ends and
  has none left there); a trimmed value equal to the empty string, to \<open>none\<close> or to
  \<open>null\<close> up to letter case gives \<open>None\<close>; otherwise a trimmed value that begins with
  \<open>0x\<close> is returned in lower case as a whole; otherwise the trimmed value is returned
  unchanged. So \<open>USA\<close> and \<open>usa\<close> have distinct normal forms, and the comparison of a
  Go run that reports Region USA with a Python run that reports Region usa is a failure
  with that one value difference.
\<close>

theorem normalize_value_rules:
  "(trimmed v t \<longleftrightarrow> t = strip v)
   \<and> normalize_value v =
       (if ci_equal (strip v) '''' \<or> ci_equal (strip v) ''none'' \<or> ci_equal (strip v) ''null''
        then ''None''
        else if prefix ''0x'' (strip v) then lower (strip v)
        else strip v)
   \<and> normalize_value ''USA'' \<noteq> normalize_value ''usa''
   \<and> compare_results \<lparr>error = None, duration = d1, fields' = [(''Region'', ''USA'')]\<rparr>
                      \<lparr>error = None, duration = d2, fields' = [(''Region'', ''usa'')]\<rparr>
       = \<lparr>passed = False,
          differences = [\<lparr>field = ''Region'', go_value = ''USA'', python_value = ''usa''\<rparr>],
          missing_in_go = [], missing_in_python = [], go_error = None, python_error = None\<rparr>"
proof (intro conjI)
  show "trimmed v t \<longleftrightarrow> t = strip v"
    using strip_trimmed trimmed_unique by blast
  show "normalize_value v =
       (if ci_equal (strip v) '''' \<or> ci_equal (strip v) ''none'' \<or> ci_equal (strip v) ''null''
        then ''None''
        else if prefix ''0x'' (strip v) then lower (strip v)
        else strip v)"
    using normalize_value_spec [of v] by (simp add: normalize_trimmed_spec_def)
  have u: "normalize_value ''USA'' = ''USA''" by code_simp
  have l: "normalize_value ''usa'' = ''usa''" by code_simp
  show ne: "normalize_value ''USA'' \<noteq> normalize_value ''usa''"
    by (simp add: u l)
  show "compare_results \<lparr>error = None, duration = d1, fields' = [(''Region'', ''USA'')]\<rparr>
                      \<lparr>error = None, duration = d2, fields' = [(''Region'', ''usa'')]\<rparr>
       = \<lparr>passed = False,
          differences = [\<lparr>field = ''Region'', go_value = ''USA'', python_value = ''usa''\<rparr>],
          missing_in_go = [], missing_in_python = [], go_error = None, python_error = None\<rparr>"
    by (simp add: compare_results_def compare_fields_def compare_field_def all_fields_def
        dict_keys_def dict_get_def Let_def u l)
qed

theorem normalize_value_rules_witness:
  "trimmed ''  0xAB12 '' ''0xAB12'' \<and> normalize_value ''  0xAB12 '' = ''0xab12''
   \<and> normalize_value '' NULL'' = ''None''"
proof -
  have s1: "strip ''  0xAB12 '' = ''0xAB12''" by code_simp
  have s2: "strip '' NULL'' = ''NULL''" by code_simp
  have c1: "\<not> ci_equal ''0xAB12'' '''' \<and> \<not> ci_equal ''0xAB12'' ''none'' \<and>
            \<not> ci_equal ''0xAB12'' ''null''" by code_simp
  have c2: "ci_equal ''NULL'' ''null''" by code_simp
  have l1: "lower ''0xAB12'' = ''0xab12''" by code_simp
  have t: "trimmed ''  0xAB12 '' ''0xAB12''"
    using normalize_value_rules [of "''  0xAB12 ''" "''0xAB12''"] s1 by simp
  have n1: "normalize_value ''  0xAB12 '' = ''0xab12''"
    using normalize_value_rules [of "''  0xAB12 ''" "''0xAB12''"] s1 c1 l1 by simp
  have n2: "normalize_value '' NULL'' = ''None''"
    using normalize_value_rules [of "'' NULL''" "''NULL''"] s2 c2 by simp
  show ?thesis using t n1 n2 by simp
qed

section \<open>The output parser: proofs\<close>

lemma split_first_at: "sep \<notin> set key \<Longrightarrow> split_first sep (key @ sep # v) = (key, v)"
  by (induction key) (auto simp: split_first_def)

lemma split_first_rejoin:
  "sep \<in> set line \<Longrightarrow>
   line = fst (split_first sep line) @ sep # snd (split_first sep line) \<and>
   sep \<notin> set (fst (split_first sep line))"
proof -
  assume mem: "sep \<in> set line"
  let ?P = "\<lambda>c. c \<noteq> sep"
  have ne: "dropWhile ?P line \<noteq> []" using mem by (simp add: dropWhile_eq_Nil_conv)
  then have hd: "hd (dropWhile ?P line) = sep" using hd_dropWhile [of ?P line] by simp
  have "dropWhile ?P line = sep # tl (dropWhile ?P line)"
    using ne hd by (metis list.collapse)
  then have "line = takeWhile ?P line @ sep # tl (dropWhile ?P line)"
    by (metis takeWhile_dropWhile_id)
  moreover have "sep \<notin> set (takeWhile ?P line)"
    by (auto dest: set_takeWhileD)
  ultimately show ?thesis by (simp add: split_first_def)
qed

lemma parse_line_tab:
  "TAB \<notin> set key \<Longrightarrow> parse_line result (key @ TAB # v) = AList.update key v result"
  by (simp add: parse_line_def split_first_at)

lemma parse_line_no_tab: "TAB \<notin> set line \<Longrightarrow> parse_line result line = result"
  by (simp add: parse_line_def)

lemma distinct_parse_line:
  "distinct (map fst result) \<Longrightarrow> distinct (map fst (parse_line result line))"
  by (simp add: parse_line_def distinct_update split: prod.splits)

lemma distinct_foldl_parse_line:
  "distinct (map fst acc) \<Longrightarrow> distinct (map fst (foldl parse_line acc ls))"
  by (induction ls arbitrary: acc) (simp_all add: distinct_parse_line)

lemma map_of_parse_line:
  "map_of (parse_line acc l) =
     (if TAB \<in> set l then (map_of acc)(fst (split_first TAB l) \<mapsto> snd (split_first TAB l))
      else map_of acc)"
  by (simp add: parse_line_def update_conv' split: prod.splits)

text \<open>The parsed map is the map of the key/value pairs of the lines with a tab, a later
  line overriding an earlier one.\<close>

lemma map_of_foldl_parse_line:
  "map_of (foldl parse_line acc ls) =
     map_of (rev (map (split_first TAB) (filter (\<lambda>l. TAB \<in> set l) ls)) @ acc)"
proof (induction ls arbitrary: acc)
  case Nil
  then show ?case by simp
next
  case (Cons l ls)
  show ?case
  proof (cases "TAB \<in> set l")
    case True
    obtain k v where kv: "split_first TAB l = (k, v)" by (cases "split_first TAB l")
    have "map_of (foldl parse_line (parse_line acc l) ls) =
          map_of (rev (map (split_first TAB) (filter (\<lambda>l. TAB \<in> set l) ls)) @ parse_line acc l)"
      by (rule Cons.IH)
    also have "\<dots> = map_of (parse_line acc l) ++
                     map_of (rev (map (split_first TAB) (filter (\<lambda>l. TAB \<in> set l) ls)))"
      by (rule map_of_append)
    also have "map_of (parse_line acc l) = map_of ((k, v) # acc)"
      using True kv by (simp add: map_of_parse_line)
    also have "map_of ((k, v) # acc) ++
                 map_of (rev (map (split_first TAB) (filter (\<lambda>l. TAB \<in> set l) ls))) =
               map_of (rev (map (split_first TAB) (filter (\<lambda>l. TAB \<in> set l) ls)) @ (k, v) # acc)"
      by (rule map_of_append [symmetric])
    finally show ?thesis using True kv by simp
  next
    case False
    then show ?thesis using Cons.IH [of acc] by (simp add: parse_line_no_tab)
  qed
qed

lemma parse_output_last_wins:
  assumes lines: "split_on NL (strip output) = before @ (key @ TAB # v) # after"
    and key: "TAB \<notin> set key"
    and last: "\<forall>l\<in>set after. \<forall>v'. l \<noteq> key @ TAB # v'"
  shows "map_of (parse_output output) key = Some v"
proof -
  let ?kvs = "\<lambda>ls. map (split_first TAB) (filter (\<lambda>l. TAB \<in> set l) ls)"
  have mem: "TAB \<in> set (key @ TAB # v)" by simp
  have kv: "split_first TAB (key @ TAB # v) = (key, v)" using key by (rule split_first_at)
  have none: "map_of (rev (?kvs after)) key = None"
  proof -
    have "key \<notin> fst ` set (rev (?kvs after))"
    proof
      assume "key \<in> fst ` set (rev (?kvs after))"
      then obtain l where l: "l \<in> set after" "TAB \<in> set l" "fst (split_first TAB l) = key"
        by auto
      from split_first_rejoin [OF l(2)] l(3)
      have "l = key @ TAB # snd (split_first TAB l)" by simp
      with last l(1) show False by blast
    qed
    then show ?thesis by (simp add: map_of_eq_None_iff)
  qed
  have "map_of (parse_output output) =
        map_of (rev (?kvs (before @ (key @ TAB # v) # after)) @ [])"
    unfolding parse_output_def lines by (rule map_of_foldl_parse_line)
  also have "rev (?kvs (before @ (key @ TAB # v) # after)) @ [] =
             rev (?kvs after) @ (key, v) # rev (?kvs before)"
    using mem kv by simp
  finally have "map_of (parse_output output) key =
                map_of (rev (?kvs after) @ (key, v) # rev (?kvs before)) key"
    by simp
  also have "\<dots> = Some v"
    using none by (simp add: map_of_append map_add_def)
  finally show ?thesis .
qed

lemma parse_output_keys:
  "key \<in> set (dict_keys (parse_output output)) \<longleftrightarrow>
     (\<exists>v. key @ TAB # v \<in> set (split_on NL (strip output)) \<and> TAB \<notin> set key)"
proof -
  let ?ls = "split_on NL (strip output)"
  let ?kvs = "map (split_first TAB) (filter (\<lambda>l. TAB \<in> set l) ?ls)"
  have "key \<in> set (dict_keys (parse_output output)) \<longleftrightarrow> map_of (parse_output output) key \<noteq> None"
    by (simp add: dict_keys_def map_of_eq_None_iff)
  also have "map_of (parse_output output) = map_of (rev ?kvs @ [])"
    unfolding parse_output_def by (rule map_of_foldl_parse_line)
  also have "map_of (rev ?kvs @ []) key \<noteq> None \<longleftrightarrow> key \<in> fst ` set ?kvs"
    by (simp add: map_of_eq_None_iff)
  also have "\<dots> \<longleftrightarrow> (\<exists>v. key @ TAB # v \<in> set ?ls \<and> TAB \<notin> set key)"
  proof
    assume "key \<in> fst ` set ?kvs"
    then obtain l where l: "l \<in> set ?ls" "TAB \<in> set l" "fst (split_first TAB l) = key"
      by auto
    from split_first_rejoin [OF l(2)] l(3)
    have "l = key @ TAB # snd (split_first TAB l)" "TAB \<notin> set key" by simp_all
    with l(1) show "\<exists>v. key @ TAB # v \<in> set ?ls \<and> TAB \<notin> set key" by metis
  next
    assume "\<exists>v. key @ TAB # v \<in> set ?ls \<and> TAB \<notin> set key"
    then obtain v where v: "key @ TAB # v \<in> set ?ls" "TAB \<notin> set key" by blast
    have "split_first TAB (key @ TAB # v) = (key, v)" using v(2) by (rule split_first_at)
    moreover have "TAB \<in> set (key @ TAB # v)" by simp
    ultimately have "(key, v) \<in> set ?kvs" using v(1) by force
    then show "key \<in> fst ` set ?kvs" by (rule rev_image_eqI) simp
  qed
  finally show ?thesis .
qed

text \<open>
  Claim C10, as the code has it. The parser first strips the whitespace around the whole
  output text (blanks, tabs and newlines at its start and at its end) and cuts what is left
  at the newlines; it folds \<open>parse_line\<close> over these lines. Such a line is cut at its
  first tab only: with no tab in \<open>key\<close>, the line \<open>key TAB value\<close> stores \<open>value\<close>
  under \<open>key\<close> whatever \<open>value\<close> contains, further tabs included. A line without a tab
  leaves the map as it is. The keys of the parsed map are pairwise distinct; they are the
  keys of those lines that have a tab; and a key is mapped to the value of the last of
  those lines that carries it.
\<close>

theorem parse_output_rules:
  "trimmed output (strip output)
   \<and> parse_output output = foldl parse_line [] (split_on NL (strip output))
   \<and> (TAB \<notin> set key \<longrightarrow> parse_line result (key @ TAB # v) = AList.update key v result)
   \<and> (TAB \<notin> set line \<longrightarrow> parse_line result line = result)
   \<and> distinct (dict_keys (parse_output output))
   \<and> (key \<in> set (dict_keys (parse_output output)) \<longleftrightarrow>
        (\<exists>v'. key @ TAB # v' \<in> set (split_on NL (strip output)) \<and> TAB \<notin> set key))
   \<and> (split_on NL (strip output) = before @ (key @ TAB # v) # after \<and> TAB \<notin> set key \<and>
      (\<forall>l\<in>set after. \<forall>v'. l \<noteq> key @ TAB # v')
        \<longrightarrow> map_of (parse_output output) key = Some v)"
proof (intro conjI impI)
  show "trimmed output (strip output)"
    by (rule strip_trimmed)
  show "parse_output output = foldl parse_line [] (split_on NL (strip output))"
    by (simp add: parse_output_def)
  show "distinct (dict_keys (parse_output output))"
    unfolding dict_keys_def parse_output_def
    by (rule distinct_foldl_parse_line) simp
  show "key \<in> set (dict_keys (parse_output output)) \<longleftrightarrow>
        (\<exists>v'. key @ TAB # v' \<in> set (split_on NL (strip output)) \<and> TAB \<notin> set key)"
    by (rule parse_output_keys)
next
  assume "TAB \<notin> set key"
  then show "parse_line result (key @ TAB # v) = AList.update key v result"
    by (rule parse_line_tab)
next
  assume "TAB \<notin> set line"
  then show "parse_line result line = result"
    by (rule parse_line_no_tab)
next
  assume "split_on NL (strip output) = before @ (key @ TAB # v) # after \<and> TAB \<notin> set key \<and>
      (\<forall>l\<in>set after. \<forall>v'. l \<noteq> key @ TAB # v')"
  then show "map_of (parse_output output) key = Some v"
    using parse_output_last_wins by blast
qed

theorem parse_output_rules_witness:
  "map_of (parse_output (''Title'' @ TAB # ''A'' @ TAB # ''B'' @ NL # ''no separator'' @ NL #
                         ''Title'' @ TAB # ''C'' @ TAB # ''D'' @ NL # ''Region'' @ TAB # ''USA'' @ [NL]))
     ''Title'' = Some (''C'' @ TAB # ''D'')
   \<and> parse_line [(''Title'', ''A'')] ''no separator'' = [(''Title'', ''A'')]"
proof -
  let ?out = "''Title'' @ TAB # ''A'' @ TAB # ''B'' @ NL # ''no separator'' @ NL #
              ''Title'' @ TAB # ''C'' @ TAB # ''D'' @ NL # ''Region'' @ TAB # ''USA'' @ [NL]"
  let ?before = "[''Title'' @ TAB # ''A'' @ TAB # ''B'', ''no separator'']"
  let ?after = "[''Region'' @ TAB # ''USA'']"
  have lines: "split_on NL (strip ?out) =
                 ?before @ (''Title'' @ TAB # (''C'' @ TAB # ''D'')) # ?after"
    by code_simp
  have key: "TAB \<notin> set ''Title''" by simp
  have last: "\<forall>l\<in>set ?after. \<forall>v'. l \<noteq> ''Title'' @ TAB # v'" by simp
  have notab: "TAB \<notin> set ''no separator''" by simp
  have a: "map_of (parse_output ?out) ''Title'' = Some (''C'' @ TAB # ''D'')"
    using parse_output_rules [of ?out "''Title''" _ "''C'' @ TAB # ''D''" _ ?before ?after]
      lines key last by blast
  have b: "parse_line [(''Title'', ''A'')] ''no separator'' = [(''Title'', ''A'')]"
    using parse_output_rules [of ?out "''Title''" "[(''Title'', ''A'')]" _ "''no separator''"]
      notab by blast
  show ?thesis using a b by blast
qed

text \<open>
  Claim C10 as stated fails for the lines of the output text itself. The output
  \<open>A TAB 1 NL B TAB NL\<close> has the line \<open>B TAB\<close>, which contains a tab, yet no key
  \<open>B\<close> is parsed: stripping the whole output removes the tab. In the output
  \<open>Title TAB A NL Title TAB\<close> the last line with key \<open>Title\<close> has the empty value, yet
  \<open>Title\<close> is mapped to \<open>A\<close>.
\<close>

theorem parse_output_strip_counterexample:
  "split_on NL (''A'' @ TAB # ''1'' @ NL # ''B'' @ TAB # [NL]) =
     [''A'' @ TAB # ''1'', ''B'' @ [TAB], '''']
   \<and> parse_output (''A'' @ TAB # ''1'' @ NL # ''B'' @ TAB # [NL]) = [(''A'', ''1'')]
   \<and> split_on NL (''Title'' @ TAB # ''A'' @ NL # ''Title'' @ [TAB]) =
     [''Title'' @ TAB # ''A'', ''Title'' @ [TAB]]
   \<and> parse_output (''Title'' @ TAB # ''A'' @ NL # ''Title'' @ [TAB]) = [(''Title'', ''A'')]"
  by code_simp

section \<open>The runner: proofs\<close>



lemma run_command_Hangs: "sh cmd = Hangs \<Longrightarrow> run_command sh cmd = None"
  by (simp add: run_command_def)








section \<open>The aggregator: proofs\<close>




















lemma generate_report_nonempty:
  "results \<noteq> [] \<Longrightarrow> generate_report results = Inr (detailed_report results)"
  by (simp add: generate_report_def detailed_report_def truediv_def Let_def)





section \<open>The exit status: proofs\<close>

lemma count_passed_less:
  "length (filter P xs) < length xs \<longleftrightarrow> (\<exists>x\<in>set xs. \<not> P x)"
proof
  assume "length (filter P xs) < length xs"
  then have "filter P xs \<noteq> xs" by auto
  then show "\<exists>x\<in>set xs. \<not> P x" by (metis filter_True)
next
  assume "\<exists>x\<in>set xs. \<not> P x"
  then show "length (filter P xs) < length xs" by (meson length_filter_less)
qed

lemma failed_tests_pos:
  "0 < failed_tests (detailed_report results) \<longleftrightarrow>
     (\<exists>r\<in>set results. \<not> passed (comparison r))"
  by (simp add: detailed_report_def Let_def count_passed_less)

lemma count_passed_eq:
  "length (filter P xs) = length xs \<longleftrightarrow> (\<forall>x\<in>set xs. P x)"
  using count_passed_less [of P xs] length_filter_le [of P xs] by fastforce

text \<open>
  Claim C9, as the code has it. \<open>run_comparison_tests.main\<close> exits with status 1 when
  the setup fails, when no test case was run, or when some test case failed, and with
  status 0 when at least one case was run and all passed. \<open>compare_outputs.main\<close> in
  batch mode exits with status 1 when the test-data directory is missing or some file
  failed and with 0 otherwise (also when no file matched); in single-file mode it exits
  with 0 exactly when the comparison of the one file succeeds.
\<close>

theorem main_exit_status:
  "main sh False test_files = Some 1
   \<and> (run_tests sh test_files = Some results \<longrightarrow>
        main sh True test_files =
          Some (if results = [] \<or> (\<exists>r\<in>set results. \<not> passed (comparison r)) then 1 else 0))
   \<and> (run_tests sh test_files = None \<longrightarrow> main sh True test_files = None)
   \<and> main_co (Batch dir_exists cases) =
        (if \<not> dir_exists \<or> (\<exists>c\<in>set cases. \<not> compare_outputs (fst c) (snd c)) then 1 else 0)
   \<and> main_co (Single py go) = (if compare_outputs py go then 0 else 1)"
proof (intro conjI impI)
  show "main sh False test_files = Some 1" by (simp add: main_def)
  show "main_co (Single py go) = (if compare_outputs py go then 0 else 1)" by simp
  have "length (filter (\<lambda>(py, go). compare_outputs py go) cases) = length cases \<longleftrightarrow>
        (\<forall>c\<in>set cases. compare_outputs (fst c) (snd c))"
    by (simp add: count_passed_eq case_prod_beta)
  then show "main_co (Batch dir_exists cases) =
        (if \<not> dir_exists \<or> (\<exists>c\<in>set cases. \<not> compare_outputs (fst c) (snd c)) then 1 else 0)"
    by (simp add: Let_def)
next
  assume rt: "run_tests sh test_files = Some results"
  show "main sh True test_files =
          Some (if results = [] \<or> (\<exists>r\<in>set results. \<not> passed (comparison r)) then 1 else 0)"
  proof (cases "results = []")
    case True
    then show ?thesis using rt by (simp add: main_def)
  next
    case False
    then show ?thesis
      using rt by (simp add: main_def generate_report_nonempty failed_tests_pos)
  qed
next
  assume "run_tests sh test_files = None"
  then show "main sh True test_files = None" by (simp add: main_def)
qed

theorem main_exit_status_witness:
  "run_tests go_failing_shell [(''GB'', [''testdata/gb/test_game.gb''])] = Some [go_fail_case]
   \<and> main go_failing_shell True [(''GB'', [''testdata/gb/test_game.gb''])] = Some 1
   \<and> main_co (Batch True [(Some [(''Title'', ''A'')], Some [(''Title'', ''A'')])]) = 0"
proof -
  have po: "parse_output (''Title'' @ TAB # ''TEST GAME'') = [(''Title'', ''TEST GAME'')]"
    by code_simp
  have rt: "run_tests go_failing_shell [(''GB'', [''testdata/gb/test_game.gb''])] = Some [go_fail_case]"
    by (simp add: run_tests_def run_case_def run_go_gameid_def run_python_gameid_def
        run_command_def go_failing_shell_def go_fail_case_def compare_results_def Let_def po [simplified])
  have f: "\<exists>r\<in>set [go_fail_case]. \<not> passed (comparison r)"
    by (simp add: go_fail_case_def)
  have ok: "compare_outputs (Some [(''Title'', ''A'')]) (Some [(''Title'', ''A'')])"
    by (simp add: compare_outputs_def dict_keys_def dict_get_def)
  note inst = main_exit_status
    [of go_failing_shell "[(''GB'', [''testdata/gb/test_game.gb''])]" "[go_fail_case]"
        True "[(Some [(''Title'', ''A'')], Some [(''Title'', ''A'')])]"]
  have a: "main go_failing_shell True [(''GB'', [''testdata/gb/test_game.gb''])] = Some 1"
    using inst rt f by simp
  have b: "main_co (Batch True [(Some [(''Title'', ''A'')], Some [(''Title'', ''A'')])]) = 0"
    using inst ok by simp
  show ?thesis using rt a b by blast
qed

text \<open>
  Claim C9 as stated fails for a run that finds no test file: no test case failed, and
  the exit status is 1.
\<close>

theorem main_exit_status_counterexample:
  "run_tests failing_shell [] = Some [] \<and> main failing_shell True [] = Some 1"
  by (simp add: run_tests_def main_def)

section \<open>The fixture synthesizer: proofs\<close>

subsection \<open>Masks, slices and sums\<close>

lemma and_0xFF: "(x::int) AND 0xFF = x mod 256"
proof -
  have "(0xFF::int) = mask 8" by (simp add: mask_eq_exp_minus_1)
  then have "x AND 0xFF = take_bit 8 x" by (simp add: take_bit_eq_mask)
  then show ?thesis by (simp add: take_bit_eq_mod)
qed

lemma and_0xFFFF: "(x::int) AND 0xFFFF = x mod 65536"
proof -
  have "(0xFFFF::int) = mask 16" by (simp add: mask_eq_exp_minus_1)
  then have "x AND 0xFFFF = take_bit 16 x" by (simp add: take_bit_eq_mask)
  then show ?thesis by (simp add: take_bit_eq_mod)
qed

lemma uint_byte_of_int: "0 \<le> k \<Longrightarrow> k < 256 \<Longrightarrow> uint (word_of_int k :: byte) = k"
  by (simp add: uint_word_of_int)

lemma read_pack_be16:
  assumes "0 \<le> n" "n < 65536" "d ! off = pack_be16 n ! 0" "d ! (off + 1) = pack_be16 n ! 1"
  shows "read_be16 d off = n"
proof -
  have "0 \<le> n div 256" "n div 256 < 256" "0 \<le> n mod 256" "n mod 256 < 256"
    using assms(1,2) by simp_all
  then have "uint (word_of_int (n div 256) :: byte) = n div 256"
    "uint (word_of_int (n mod 256) :: byte) = n mod 256"
    by (simp_all add: uint_byte_of_int)
  then show ?thesis using assms(3,4) by (simp add: read_be16_def pack_be16_def)
qed

lemma read_pack_le16:
  assumes "0 \<le> n" "n < 65536" "d ! off = pack_le16 n ! 0" "d ! (off + 1) = pack_le16 n ! 1"
  shows "read_le16 d off = n"
proof -
  have "0 \<le> n div 256" "n div 256 < 256" "0 \<le> n mod 256" "n mod 256 < 256"
    using assms(1,2) by simp_all
  then have "uint (word_of_int (n div 256) :: byte) = n div 256"
    "uint (word_of_int (n mod 256) :: byte) = n mod 256"
    by (simp_all add: uint_byte_of_int)
  then show ?thesis using assms(3,4) by (simp add: read_le16_def pack_le16_def)
qed

lemma set_slice_eq:
  "lo \<le> hi \<Longrightarrow> hi \<le> length d \<Longrightarrow> set_slice d lo hi bs = take lo d @ bs @ drop hi d"
  by (simp add: set_slice_def Let_def min_def max_def)

lemma length_set_slice:
  "lo \<le> hi \<Longrightarrow> hi \<le> length d \<Longrightarrow> length bs = hi - lo \<Longrightarrow>
   length (set_slice d lo hi bs) = length d"
  by (simp add: set_slice_eq)

lemma take_set_slice:
  "n \<le> lo \<Longrightarrow> lo \<le> hi \<Longrightarrow> hi \<le> length d \<Longrightarrow> take n (set_slice d lo hi bs) = take n d"
  by (simp add: set_slice_eq min_def)

lemma drop_set_slice:
  "lo \<le> hi \<Longrightarrow> hi \<le> length d \<Longrightarrow> length bs = hi - lo \<Longrightarrow> hi \<le> n \<Longrightarrow>
   drop n (set_slice d lo hi bs) = drop n d"
  by (simp add: set_slice_eq min_def)

lemma nth_set_slice_in:
  assumes "lo \<le> hi" "hi \<le> length d" "i < length bs"
  shows "set_slice d lo hi bs ! (lo + i) = bs ! i"
proof -
  have l: "length (take lo d) = lo" using assms by simp
  have "set_slice d lo hi bs ! (lo + i) =
        (take lo d @ bs @ drop hi d) ! (length (take lo d) + i)"
    using assms by (simp only: set_slice_eq l)
  also have "\<dots> = (bs @ drop hi d) ! i" by (rule nth_append_length_plus)
  also have "\<dots> = bs ! i" using assms by (simp add: nth_append)
  finally show ?thesis .
qed

lemma nth_set_slice_below:
  "i < lo \<Longrightarrow> lo \<le> hi \<Longrightarrow> hi \<le> length d \<Longrightarrow> set_slice d lo hi bs ! i = d ! i"
  by (simp add: set_slice_eq nth_append min_def)

lemma slice_map_nth: "hi \<le> length d \<Longrightarrow> slice d lo hi = map ((!) d) [lo ..< hi]"
  by (rule nth_equalityI) (auto simp: slice_def)

lemma slice_take: "slice d lo hi = drop lo (take hi d)"
  by (simp add: slice_def drop_take)

lemma zip_upt_nth: "zip [0 ..< length d] d = map (\<lambda>i. (i, d ! i)) [0 ..< length d]"
  by (rule nth_equalityI) simp_all

lemma foldl_cond_sum:
  "foldl (\<lambda>acc i. if P i then acc + g i else acc) (a::int) ixs =
     a + sum_list (map g (filter P ixs))"
  by (induction ixs arbitrary: a) simp_all

lemma upt_split3:
  assumes "lo \<le> hi" "hi \<le> n"
  shows "[0 ..< n] = [0 ..< lo] @ [lo ..< hi] @ [hi ..< n]"
proof -
  obtain k where k: "hi = lo + k" using assms(1) le_Suc_ex by blast
  obtain m where m: "n = hi + m" using assms(2) le_Suc_ex by blast
  have "[0 ..< hi + m] = [0 ..< hi] @ [hi ..< hi + m]"
    by (rule upt_add_eq_append) simp
  moreover have "[0 ..< lo + k] = [0 ..< lo] @ [lo ..< lo + k]"
    by (rule upt_add_eq_append) simp
  ultimately show ?thesis by (simp add: k m)
qed

lemma map_nth_prefix: "lo \<le> length d \<Longrightarrow> map ((!) d) [0 ..< lo] = take lo d"
  by (rule nth_equalityI) simp_all

lemma map_nth_suffix: "map ((!) d) [hi ..< length d] = drop hi d"
  by (rule nth_equalityI) simp_all

lemma sum_except_range:
  assumes skip: "set skip = {lo ..< hi}" and le: "lo \<le> hi" "hi \<le> length d"
  shows "sum_except skip d = sum_bytes (take lo d) + sum_bytes (drop hi d)"
proof -
  let ?keep = "\<lambda>i. i \<notin> set skip"
  have f1: "filter ?keep [0 ..< lo] = [0 ..< lo]"
    by (rule filter_True) (simp add: skip)
  have f2: "filter ?keep [lo ..< hi] = []"
    by (simp add: filter_empty_conv skip)
  have f3: "filter ?keep [hi ..< length d] = [hi ..< length d]"
    by (rule filter_True) (simp add: skip)
  have "filter ?keep [0 ..< length d] =
        filter ?keep ([0 ..< lo] @ [lo ..< hi] @ [hi ..< length d])"
    using upt_split3 [OF le] by simp
  also have "\<dots> = [0 ..< lo] @ [hi ..< length d]"
    by (simp only: filter_append f1 f2 f3 append_Nil)
  finally have keep: "filter ?keep [0 ..< length d] = [0 ..< lo] @ [hi ..< length d]" .
  have "sum_except skip d =
        sum_list (map (\<lambda>i. uint (d ! i)) ([0 ..< lo] @ [hi ..< length d]))"
    by (simp only: sum_except_def keep)
  also have "\<dots> = sum_list (map uint (map ((!) d) [0 ..< lo])) +
                   sum_list (map uint (map ((!) d) [hi ..< length d]))"
    by (simp add: comp_def)
  also have "map ((!) d) [0 ..< lo] = take lo d"
    using le by (intro map_nth_prefix) simp
  also have "map ((!) d) [hi ..< length d] = drop hi d"
    by (rule map_nth_suffix)
  finally show ?thesis by (simp add: sum_bytes_def)
qed

subsection \<open>Game Boy\<close>

lemma rolling_complement_snoc:
  "rolling_complement (bs @ [b]) = (rolling_complement bs - uint b - 1) mod 256"
  by (simp add: rolling_complement_def)

lemma rolling_complement_range: "0 \<le> rolling_complement bs \<and> rolling_complement bs < 256"
proof (induction bs rule: rev_induct)
  case Nil
  then show ?case by (simp add: rolling_complement_def)
next
  case (snoc b bs)
  then show ?case by (simp add: rolling_complement_snoc)
qed

text \<open>The loop of lines 117 to 119 is the rolling complement of the bytes it reads.\<close>

lemma header_checksum_eq:
  assumes "0x14D \<le> length d"
  shows "header_checksum d = rolling_complement (slice d 0x134 0x14D)"
proof -
  have "slice d 0x134 0x14D = map ((!) d) [0x134 ..< 0x14D]"
    using assms by (rule slice_map_nth)
  then show ?thesis
    by (simp only: header_checksum_def rolling_complement_def foldl_map and_0xFF)
qed

text \<open>The loop of lines 123 to 127 sums every byte outside the checksum's own slot.\<close>

lemma global_checksum_eq:
  "global_checksum d = sum_except [0x14E, 0x14F] d mod 65536"
proof -
  have "foldl (\<lambda>acc (i, b). if i \<notin> set [0x14E, 0x14F] then acc + uint b else acc) 0
          (zip [0 ..< length d] d) =
        foldl (\<lambda>acc i. if i \<notin> set [0x14E, 0x14F] then acc + uint (d ! i) else acc) 0
          [0 ..< length d]"
    by (simp only: zip_upt_nth foldl_map prod.case)
  also have "\<dots> = 0 + sum_list (map (\<lambda>i. uint (d ! i))
                     (filter (\<lambda>i. i \<notin> set [0x14E, 0x14F]) [0 ..< length d]))"
    by (rule foldl_cond_sum)
  finally show ?thesis
    by (simp only: global_checksum_def sum_except_def and_0xFFFF add_0)
qed

lemma gb_slot: "set [0x14E, 0x14F] = {0x14E ..< (0x150::nat)}"
  by auto

lemma length_gb_header: "length gb_header = 0x8000"
  by (simp add: gb_header_def Let_def bytearray_def length_set_slice ljust_def bytes_of_def
      nintendo_logo_gb_def)

text \<open>The two checksum steps, on any buffer long enough to hold the header.\<close>

lemma gb_checksums_generic:
  fixes pre :: "byte list"
  assumes len: "0x150 \<le> length pre"
  defines "d1 \<equiv> pre[0x14D := word_of_int (header_checksum pre)]"
  defines "d2 \<equiv> set_slice d1 0x14E 0x150 (pack_be16 (global_checksum d1))"
  shows "rolling_complement (slice d2 0x134 0x14D) = uint (d2 ! 0x14D)"
    and "read_be16 d2 0x14E = sum_except [0x14E, 0x14F] d2 mod 65536"
    and "length d2 = length pre"
proof -
  have len1: "length d1 = length pre" by (simp add: d1_def)
  have le1: "(0x14E::nat) \<le> 0x150" "0x150 \<le> length d1" using len len1 by simp_all
  have lpk: "length (pack_be16 (global_checksum d1)) = 0x150 - 0x14E"
    by (simp add: pack_be16_def)
  show len2: "length d2 = length pre"
    unfolding d2_def using le1 lpk len1 by (simp add: length_set_slice)
  \<comment> \<open>the header checksum\<close>
  have t2: "take 0x14D d2 = take 0x14D d1"
    unfolding d2_def using le1 by (simp add: take_set_slice)
  have t1: "take 0x14D d1 = take 0x14D pre" by (simp add: d1_def)
  have sl: "slice d2 0x134 0x14D = slice pre 0x134 0x14D"
    by (simp only: slice_take t2 t1)
  have hc: "header_checksum pre = rolling_complement (slice pre 0x134 0x14D)"
    using len by (intro header_checksum_eq) simp
  have "d2 ! 0x14D = d1 ! 0x14D"
    unfolding d2_def using le1 by (simp add: nth_set_slice_below)
  also have "\<dots> = word_of_int (header_checksum pre)"
    using len by (simp add: d1_def)
  finally have "uint (d2 ! 0x14D) = header_checksum pre"
    using rolling_complement_range [of "slice pre 0x134 0x14D"]
    by (simp add: hc uint_byte_of_int)
  then show "rolling_complement (slice d2 0x134 0x14D) = uint (d2 ! 0x14D)"
    by (simp add: sl hc)
  \<comment> \<open>the global checksum\<close>
  let ?gc = "global_checksum d1"
  have gc: "?gc = sum_except [0x14E, 0x14F] d1 mod 65536" by (rule global_checksum_eq)
  have rng: "0 \<le> ?gc" "?gc < 65536" by (simp_all add: gc)
  have n0: "d2 ! 0x14E = pack_be16 ?gc ! 0"
    using nth_set_slice_in [of "0x14E" "0x150" d1 0 "pack_be16 ?gc"] le1
    by (simp add: d2_def pack_be16_def)
  have n1: "d2 ! (0x14E + 1) = pack_be16 ?gc ! 1"
    using nth_set_slice_in [of "0x14E" "0x150" d1 1 "pack_be16 ?gc"] le1
    by (simp add: d2_def pack_be16_def)
  have rd: "read_be16 d2 0x14E = ?gc"
    using rng n0 n1 by (rule read_pack_be16)
  have le2: "0x150 \<le> length d2" using len len2 by simp
  have "sum_except [0x14E, 0x14F] d2 = sum_bytes (take 0x14E d2) + sum_bytes (drop 0x150 d2)"
    using gb_slot le1(1) le2 by (rule sum_except_range)
  also have "take 0x14E d2 = take 0x14E d1"
    unfolding d2_def using le1 by (simp add: take_set_slice)
  also have "drop 0x150 d2 = drop 0x150 d1"
    unfolding d2_def using le1 lpk by (simp add: drop_set_slice)
  also have "sum_bytes (take 0x14E d1) + sum_bytes (drop 0x150 d1) = sum_except [0x14E, 0x14F] d1"
    using gb_slot le1 by (rule sum_except_range [symmetric])
  finally show "read_be16 d2 0x14E = sum_except [0x14E, 0x14F] d2 mod 65536"
    by (simp add: rd gc)
qed

text \<open>
  Claim C5. In the Game Boy fixture the rolling complement, started at 0, of the bytes at
  0x134 to 0x14C of the written image equals the byte stored at 0x14D, and the big-endian
  16-bit value stored at 0x14E equals the sum of all bytes of the written image outside
  the offsets 0x14E and 0x14F, modulo 65536. The image has 0x8000 bytes.
\<close>

theorem gb_sample_checksums:
  "rolling_complement (slice create_gb_sample 0x134 0x14D) = uint (create_gb_sample ! 0x14D)
   \<and> read_be16 create_gb_sample 0x14E = sum_except [0x14E, 0x14F] create_gb_sample mod 65536
   \<and> length create_gb_sample = 0x8000"
proof -
  have len: "0x150 \<le> length gb_header" by (simp add: length_gb_header)
  have eq: "create_gb_sample =
      set_slice (gb_header[0x14D := word_of_int (header_checksum gb_header)]) 0x14E 0x150
        (pack_be16 (global_checksum (gb_header[0x14D := word_of_int (header_checksum gb_header)])))"
    by (simp add: create_gb_sample_def Let_def)
  show ?thesis
    unfolding eq using gb_checksums_generic [OF len] by (simp add: length_gb_header)
qed

subsection \<open>SNES\<close>

lemma replicate_update:
  "i < n \<Longrightarrow> (replicate n x)[i := v] = replicate i x @ v # replicate (n - i - 1) x"
proof (induction n arbitrary: i)
  case 0
  then show ?case by simp
next
  case (Suc n)
  then show ?case by (cases i) simp_all
qed

lemma title_bytes:
  "bytes_of ''TEST GAME'' = [0x54, 0x45, 0x53, 0x54, 0x20, 0x47, 0x41, 0x4D, 0x45]"
  by (simp add: bytes_of_def)

lemma snes_title:
  "ljust 21 0x20 (bytes_of ''TEST GAME'') =
     [0x54, 0x45, 0x53, 0x54, 0x20, 0x47, 0x41, 0x4D, 0x45,
      0x20, 0x20, 0x20, 0x20, 0x20, 0x20, 0x20, 0x20, 0x20, 0x20, 0x20, 0x20]"
  by (simp add: ljust_def title_bytes numeral_eq_Suc)

text \<open>The buffer before the checksums: zeros, the 28 header bytes at 0x7FC0, zeros.\<close>

lemma snes_header_layout:
  "snes_header = replicate 0x7FC0 0 @
     [0x54, 0x45, 0x53, 0x54, 0x20, 0x47, 0x41, 0x4D, 0x45,
      0x20, 0x20, 0x20, 0x20, 0x20, 0x20, 0x20, 0x20, 0x20, 0x20, 0x20, 0x20,
      0x20, 0x00, 0x0A, 0x00, 0x01, 0x00, 0x00] @ replicate 0xF8024 0"
  by (simp add: snes_header_def Let_def bytearray_def set_slice_def snes_title
      list_update_append replicate_update)

lemma sum_bytes_snes_header: "sum_bytes snes_header = 0x0425"
  by (simp add: snes_header_layout sum_bytes_def sum_list_replicate)

lemma length_snes_header: "length snes_header = 0x100000"
  by (simp add: snes_header_layout)

text \<open>The written image: the same with complement \<open>0xFBDA\<close> and checksum \<open>0x0425\<close>,
  both little-endian, at 0x7FDC and 0x7FDE.\<close>

lemma create_snes_sample_layout:
  "create_snes_sample = replicate 0x7FC0 0 @
     [0x54, 0x45, 0x53, 0x54, 0x20, 0x47, 0x41, 0x4D, 0x45,
      0x20, 0x20, 0x20, 0x20, 0x20, 0x20, 0x20, 0x20, 0x20, 0x20, 0x20, 0x20,
      0x20, 0x00, 0x0A, 0x00, 0x01, 0x00, 0x00,
      0xDA, 0xFB, 0x25, 0x04] @ replicate 0xF8020 0"
proof -
  have ck: "sum_bytes snes_header AND 0xFFFF = 0x0425"
    by (simp add: sum_bytes_snes_header)
  have cm: "(0xFFFF - (0x0425::int)) AND 0xFFFF = 0xFBDA" by simp
  have p1: "pack_le16 0xFBDA = [0xDA, 0xFB]" by (simp add: pack_le16_def)
  have p2: "pack_le16 0x0425 = [0x25, 0x04]" by (simp add: pack_le16_def)
  have "create_snes_sample =
        set_slice (set_slice snes_header 0x7FDC 0x7FDE [0xDA, 0xFB]) 0x7FDE 0x7FE0 [0x25, 0x04]"
    by (simp add: create_snes_sample_def Let_def ck cm p1 p2)
  also have "\<dots> = replicate 0x7FC0 0 @
     [0x54, 0x45, 0x53, 0x54, 0x20, 0x47, 0x41, 0x4D, 0x45,
      0x20, 0x20, 0x20, 0x20, 0x20, 0x20, 0x20, 0x20, 0x20, 0x20, 0x20, 0x20,
      0x20, 0x00, 0x0A, 0x00, 0x01, 0x00, 0x00,
      0xDA, 0xFB, 0x25, 0x04] @ replicate 0xF8020 0"
    by (simp add: snes_header_layout set_slice_def Let_def)
  finally show ?thesis .
qed

lemma snes_stored_complement: "read_le16 create_snes_sample 0x7FDC = 0xFBDA"
  by (simp add: read_le16_def create_snes_sample_layout nth_append)

lemma snes_stored_checksum: "read_le16 create_snes_sample 0x7FDE = 0x0425"
  by (simp add: read_le16_def create_snes_sample_layout nth_append)

lemma sum_bytes_create_snes_sample: "sum_bytes create_snes_sample = 0x0623"
  by (simp add: create_snes_sample_layout sum_bytes_def sum_list_replicate)

lemma length_create_snes_sample: "length create_snes_sample = 0x100000"
  by (simp add: create_snes_sample_layout)

lemma snes_slots: "set [0x7FDC, 0x7FDD, 0x7FDE, 0x7FDF] = {0x7FDC ..< (0x7FE0::nat)}"
  by auto

lemma sum_except_slots_snes:
  "sum_except [0x7FDC, 0x7FDD, 0x7FDE, 0x7FDF] create_snes_sample = 0x0425"
proof -
  have le: "(0x7FDC::nat) \<le> 0x7FE0" "0x7FE0 \<le> length create_snes_sample"
    by (simp_all add: create_snes_sample_layout)
  have "sum_except [0x7FDC, 0x7FDD, 0x7FDE, 0x7FDF] create_snes_sample =
        sum_bytes (take 0x7FDC create_snes_sample) + sum_bytes (drop 0x7FE0 create_snes_sample)"
    using snes_slots le by (rule sum_except_range)
  also have "\<dots> = 0x0425"
    by (simp add: create_snes_sample_layout sum_bytes_def sum_list_replicate)
  finally show ?thesis .
qed

text \<open>
  Claim C4, as the code has it. In the SNES fixture the stored complement and the stored
  checksum, read back little-endian from the written image, add up to 0xFFFF modulo
  0x10000. The stored checksum equals, modulo 0x10000, the sum of all bytes of the buffer
  as it stands before complement and checksum are stored, which is the sum of all bytes of
  the written image outside the four bytes 0x7FDC to 0x7FDF of the two slots. The image
  has 0x100000 bytes.
\<close>

theorem snes_sample_checksums:
  "(read_le16 create_snes_sample 0x7FDC + read_le16 create_snes_sample 0x7FDE) mod 0x10000
     = 0xFFFF
   \<and> read_le16 create_snes_sample 0x7FDE = sum_bytes snes_header mod 0x10000
   \<and> read_le16 create_snes_sample 0x7FDE =
       sum_except [0x7FDC, 0x7FDD, 0x7FDE, 0x7FDF] create_snes_sample mod 0x10000
   \<and> length create_snes_sample = 0x100000"
  by (simp add: snes_stored_complement snes_stored_checksum sum_bytes_snes_header
      sum_except_slots_snes length_create_snes_sample)

text \<open>
  Claim C4 as stated fails: the stored checksum is 0x0425, the sum of all bytes of the
  written image is 0x0623, the four stored bytes themselves adding 0x1FE.
\<close>

theorem snes_checksum_counterexample:
  "read_le16 create_snes_sample 0x7FDE = 0x0425
   \<and> sum_bytes create_snes_sample mod 0x10000 = 0x0623
   \<and> read_le16 create_snes_sample 0x7FDE \<noteq> sum_bytes create_snes_sample mod 0x10000"
  by (simp add: snes_stored_checksum sum_bytes_create_snes_sample)

end
